theory Spec2Isabelle
  imports Complex_Main
begin

section \<open>JavaScript values reaching the handlers\<close>

text \<open>
  Request bodies are parsed JSON and query or path parameters are strings. A field of a
  request is one of the values below; \<open>JNum\<close> stands for an integral JSON number (of
  magnitude below \<open>10^21\<close>, where JavaScript prints it in plain decimal). Strings are lists
  of code units below 256. Arrays, objects and fractional numbers are not represented.
\<close>

datatype jsval = JUndefined | JNull | JBool bool | JNum int | JStr string

text \<open>Truthiness, as tested by \<open>!x\<close>, \<open>x || d\<close>, \<open>x ? a : b\<close> and \<open>if (x)\<close>.\<close>

fun truthy :: "jsval \<Rightarrow> bool" where
  "truthy JUndefined = False"
| "truthy JNull = False"
| "truthy (JBool b) = b"
| "truthy (JNum n) = (n \<noteq> 0)"
| "truthy (JStr s) = (s \<noteq> [])"

fun dec_digits :: "nat \<Rightarrow> string" where
  "dec_digits n =
     (if n < 10 then [''0123456789'' ! n]
      else dec_digits (n div 10) @ [''0123456789'' ! (n mod 10)])"

declare dec_digits.simps [simp del]

text \<open>The abstract operation ToString, applied implicitly by \<open>parseInt\<close> and \<open>RegExp.test\<close>.\<close>

fun to_string :: "jsval \<Rightarrow> string" where
  "to_string JUndefined = ''undefined''"
| "to_string JNull = ''null''"
| "to_string (JBool b) = (if b then ''true'' else ''false'')"
| "to_string (JNum n) = (if n < 0 then CHR ''-'' # dec_digits (nat (- n)) else dec_digits (nat n))"
| "to_string (JStr s) = s"

text \<open>
  White space as skipped by \<open>parseInt\<close> and matched by \<open>\s\<close>: tab, line feed, vertical tab,
  form feed, carriage return, space and the no-break space.
\<close>

definition is_ws :: "char \<Rightarrow> bool" where
  "is_ws c = (c = CHR 0x09 \<or> c = CHR 0x0A \<or> c = CHR 0x0B \<or> c = CHR 0x0C \<or> c = CHR 0x0D
              \<or> c = CHR 0x20 \<or> c = CHR 0xA0)"

definition digit_val :: "char \<Rightarrow> nat option" where
  "digit_val c = (let k = (of_char c :: nat) in if 48 \<le> k \<and> k \<le> 57 then Some (k - 48) else None)"

definition hex_val :: "char \<Rightarrow> nat option" where
  "hex_val c =
     (let k = (of_char c :: nat) in
      if 48 \<le> k \<and> k \<le> 57 then Some (k - 48)
      else if 97 \<le> k \<and> k \<le> 102 then Some (k - 87)
      else if 65 \<le> k \<and> k \<le> 70 then Some (k - 55)
      else None)"

fun digits_prefix :: "(char \<Rightarrow> nat option) \<Rightarrow> string \<Rightarrow> nat list" where
  "digits_prefix dv [] = []"
| "digits_prefix dv (c # cs) = (case dv c of None \<Rightarrow> [] | Some d \<Rightarrow> d # digits_prefix dv cs)"

definition radix_value :: "nat \<Rightarrow> nat list \<Rightarrow> nat" where
  "radix_value R ds = foldl (\<lambda>acc d. acc * R + d) 0 ds"

text \<open>
  \<open>parseInt(string)\<close> with no radix: skip leading white space, take an optional sign, take
  the prefix \<open>0x\<close>/\<open>0X\<close> as radix 16, read the longest run of digits and ignore the rest.
  \<open>None\<close> is \<open>NaN\<close>. The result is exact here; JavaScript rounds beyond \<open>2^53\<close>.
\<close>

definition parseInt_str :: "string \<Rightarrow> int option" where
  "parseInt_str inputString =
     (let S = dropWhile is_ws inputString;
          neg = (case S of [] \<Rightarrow> False | c # _ \<Rightarrow> c = CHR ''-'');
          S1 = (case S of [] \<Rightarrow> [] | c # cs \<Rightarrow> if c = CHR ''+'' \<or> c = CHR ''-'' then cs else S);
          hex = (case S1 of a # b # _ \<Rightarrow> a = CHR ''0'' \<and> (b = CHR ''x'' \<or> b = CHR ''X'') | _ \<Rightarrow> False);
          S2 = (if hex then drop 2 S1 else S1);
          Z = digits_prefix (if hex then hex_val else digit_val) S2
      in if Z = [] then None
         else Some ((if neg then - 1 else 1) * int (radix_value (if hex then 16 else 10) Z)))"

definition parseInt :: "jsval \<Rightarrow> int option" where
  "parseInt v = parseInt_str (to_string v)"


text \<open>The \<open>length\<close> property: a number of code units on a string, \<open>undefined\<close> otherwise.\<close>

fun js_length :: "jsval \<Rightarrow> nat option" where
  "js_length (JStr s) = Some (length s)"
| "js_length _ = None"

text \<open>
  \<open>/^[^\s@]+@[^\s@]+\.[^\s@]+$/\<close>: the characters before the first \<open>@\<close> are a non-empty run
  without white space; what follows the \<open>@\<close> has no white space and no \<open>@\<close>, and holds a
  dot that is neither its first nor its last character.
\<close>

definition emailRegex_test :: "string \<Rightarrow> bool" where
  "emailRegex_test s =
     (let ok = (\<lambda>c. \<not> is_ws c \<and> c \<noteq> CHR ''@'');
          user = takeWhile ok s
      in user \<noteq> [] \<and>
         (case dropWhile ok s of
            [] \<Rightarrow> False
          | c # host \<Rightarrow> c = CHR ''@'' \<and> list_all ok host \<and> CHR ''.'' \<in> set (tl (butlast host))))"

text \<open>\<open>/^\d{5}$/\<close>\<close>

definition postalCodeRegex_test :: "string \<Rightarrow> bool" where
  "postalCodeRegex_test s = (length s = 5 \<and> list_all (\<lambda>c. digit_val c \<noteq> None) s)"

section \<open>The data store\<close>

text \<open>
  The relational store is a list of rows per table, in insertion order, with the next
  \<open>AUTO_INCREMENT\<close> value. A row keeps each column as the value the handler passed as the
  statement's parameter; SQL comparison of a parameter with a column is equality of these
  values. Timestamps are seconds. The store is reachable and executes every statement:
  column widths, the server's SQL mode and connection failures are outside the model.
\<close>

record 'r table =
  rows :: "'r list"
  next_id :: int

record contact =
  c_id :: int
  c_name :: jsval
  c_phone :: jsval
  c_email :: jsval
  c_postalCode :: jsval
  c_createdAt :: nat

record review =
  r_id :: int
  r_name :: jsval
  r_email :: jsval
  r_rating :: int
  r_comment :: jsval
  r_approved :: bool
  r_createdAt :: nat
  r_updatedAt :: nat

record admin =
  a_id :: int
  a_username :: string
  a_email :: string
  a_password :: string
  a_name :: string
  a_active :: bool

record blog_post =
  bp_id :: int
  bp_title :: jsval
  bp_slug :: jsval
  bp_excerpt :: jsval
  bp_content :: jsval
  bp_image :: jsval
  bp_category :: jsval
  bp_tags :: jsval
  bp_metaTitle :: jsval
  bp_metaDescription :: jsval
  bp_published :: bool
  bp_featured :: bool
  bp_readTime :: int
  bp_views :: int
  bp_authorId :: int
  bp_createdAt :: nat
  bp_updatedAt :: nat

text \<open>
  \<open>ORDER BY createdAt DESC\<close>: a stable sort on the negated timestamp. Rows with equal
  timestamps keep their table order, one of the orders the store may choose.
\<close>

definition order_by_desc :: "('r \<Rightarrow> nat) \<Rightarrow> 'r list \<Rightarrow> 'r list" where
  "order_by_desc createdAt rs = sort_key (\<lambda>r. - int (createdAt r)) rs"


section \<open>Responses\<close>

text \<open>
  A response is a status code and a JSON body, one constructor per shape of body. The
  texts of messages are those of the handlers, the accented letters of the Spanish ones
  written without their accent.
\<close>

record pagination =
  pg_page :: int
  pg_limit :: int
  pg_total :: int
  pg_totalPages :: int

record admin_info =
  ai_id :: int
  ai_username :: string
  ai_email :: string
  ai_name :: string

text \<open>The row of \<open>blog_posts\<close> joined with its author's name and email.\<close>

record post_view =
  pv_post :: blog_post
  pv_authorName :: string
  pv_authorEmail :: string

record related_post =
  rp_id :: int
  rp_title :: jsval
  rp_slug :: jsval
  rp_excerpt :: jsval
  rp_image :: jsval
  rp_category :: jsval
  rp_createdAt :: nat
  rp_authorName :: string

datatype body =
    Error string
  | ErrorRequired string "string list"
  | Message string
  | Login string admin_info
  | Contacts "contact list" pagination
  | Reviews "review list" pagination
  | PublicReviews "review list"
  | ReviewApproved string "review option"
  | ReviewSubmitted string int
  | ContactSubmitted string int
  | PostCreated string int
  | Post post_view "related_post list"

record response =
  status :: nat
  json :: body

definition respond :: "nat \<Rightarrow> body \<Rightarrow> response" where
  "respond st b = \<lparr>status = st, json = b\<rparr>"

section \<open>Notification\<close>

text \<open>
  The environment gives \<open>SMTP_USER\<close> and \<open>CONTACT_EMAIL\<close> (or leaves them undefined), and the
  transport either delivers a message or throws. A handler reports the messages it handed
  to the transport and the errors it logged.
\<close>

record env =
  SMTP_USER :: "string option"
  CONTACT_EMAIL :: "string option"

record mail =
  m_from :: string
  m_to :: string
  m_subject :: string

record effects =
  attempted :: "mail list"
  logged :: "string list"

definition env_set :: "string option \<Rightarrow> bool" where
  "env_set v = (case v of None \<Rightarrow> False | Some s \<Rightarrow> s \<noteq> [])"

definition notify :: "env \<Rightarrow> (mail \<Rightarrow> bool) \<Rightarrow> string \<Rightarrow> effects" where
  "notify e sendMail subject =
     (if env_set (SMTP_USER e) \<and> env_set (CONTACT_EMAIL e) then
        (let m = \<lparr>m_from = the (SMTP_USER e), m_to = the (CONTACT_EMAIL e), m_subject = subject\<rparr>
         in if sendMail m then \<lparr>attempted = [m], logged = []\<rparr>
            else \<lparr>attempted = [m], logged = [''Error sending notification email:'']\<rparr>)
      else \<lparr>attempted = [], logged = []\<rparr>)"

section \<open>Reviews\<close>

record review_body =
  rb_name :: jsval
  rb_email :: jsval
  rb_rating :: jsval
  rb_comment :: jsval

text \<open>\<open>comment.length < n\<close> and \<open>comment.length > n\<close>; a comparison with \<open>undefined\<close> is false.\<close>

definition length_lt :: "jsval \<Rightarrow> nat \<Rightarrow> bool" where
  "length_lt v n = (case js_length v of None \<Rightarrow> False | Some k \<Rightarrow> k < n)"

definition length_gt :: "jsval \<Rightarrow> nat \<Rightarrow> bool" where
  "length_gt v n = (case js_length v of None \<Rightarrow> False | Some k \<Rightarrow> k > n)"

definition no_effects :: effects where
  "no_effects = \<lparr>attempted = [], logged = []\<rparr>"

text \<open>\<open>POST /api/reviews\<close>\<close>

definition post_reviews ::
  "env \<Rightarrow> (mail \<Rightarrow> bool) \<Rightarrow> nat \<Rightarrow> review_body \<Rightarrow> review table \<Rightarrow> response \<times> review table \<times> effects" where
  "post_reviews e sendMail now b t =
     (if \<not> truthy (rb_name b) \<or> \<not> truthy (rb_email b) \<or> \<not> truthy (rb_rating b) \<or> \<not> truthy (rb_comment b)
      then (respond 400 (ErrorRequired ''Missing required fields'' [''name'', ''email'', ''rating'', ''comment'']), t, no_effects)
      else if \<not> emailRegex_test (to_string (rb_email b))
      then (respond 400 (Error ''Invalid email format''), t, no_effects)
      else (case parseInt (rb_rating b) of
              None \<Rightarrow> (respond 400 (Error ''Rating must be between 1 and 5''), t, no_effects)
            | Some ratingNum \<Rightarrow>
                if ratingNum < 1 \<or> ratingNum > 5
                then (respond 400 (Error ''Rating must be between 1 and 5''), t, no_effects)
                else if length_lt (rb_comment b) 10
                then (respond 400 (Error ''Comment must be at least 10 characters long''), t, no_effects)
                else if length_gt (rb_comment b) 1000
                then (respond 400 (Error ''Comment must be less than 1000 characters''), t, no_effects)
                else
                  (let insertId = next_id t;
                       row = \<lparr>r_id = insertId, r_name = rb_name b, r_email = rb_email b,
                              r_rating = ratingNum, r_comment = rb_comment b, r_approved = False,
                              r_createdAt = now, r_updatedAt = now\<rparr>;
                       t' = \<lparr>rows = rows t @ [row], next_id = insertId + 1\<rparr>
                   in (respond 201 (ReviewSubmitted ''Review submitted successfully and is pending approval'' insertId),
                       t',
                       notify e sendMail ''Nueva resena pendiente de aprobacion - Asiste Health Care''))))"

text \<open>\<open>GET /api/reviews\<close>: the request is not read.\<close>

definition get_reviews :: "'req \<Rightarrow> review table \<Rightarrow> response" where
  "get_reviews req t =
     respond 200 (PublicReviews (take 50 (order_by_desc r_createdAt (filter r_approved (rows t)))))"

text \<open>\<open>SET approved = 1, updatedAt = NOW() WHERE id = ?\<close>, on one row.\<close>

definition approve_row :: "nat \<Rightarrow> int \<Rightarrow> review \<Rightarrow> review" where
  "approve_row now k r = (if r_id r = k then r\<lparr>r_approved := True, r_updatedAt := now\<rparr> else r)"

text \<open>
  \<open>PUT /api/reviews/:id/approve\<close>, and the same handler behind the token check as
  \<open>PUT /api/admin/reviews/:id/approve\<close>. \<open>affectedRows\<close> counts the rows the \<open>WHERE\<close> clause
  matches.
\<close>

definition put_reviews_approve :: "nat \<Rightarrow> string \<Rightarrow> review table \<Rightarrow> response \<times> review table" where
  "put_reviews_approve now idParam t =
     (case parseInt_str idParam of
        None \<Rightarrow> (respond 400 (Error ''Invalid review ID''), t)
      | Some reviewId \<Rightarrow>
          (let affectedRows = length (filter (\<lambda>r. r_id r = reviewId) (rows t));
               t' = t\<lparr>rows := map (approve_row now reviewId) (rows t)\<rparr>
           in if affectedRows = 0 then (respond 404 (Error ''Review not found''), t')
              else (respond 200 (ReviewApproved ''Review approved successfully''
                                   (find (\<lambda>r. r_id r = reviewId) (rows t'))), t')))"

text \<open>\<open>DELETE /api/reviews/:id\<close>\<close>

definition delete_reviews :: "string \<Rightarrow> review table \<Rightarrow> response \<times> review table" where
  "delete_reviews idParam t =
     (case parseInt_str idParam of
        None \<Rightarrow> (respond 400 (Error ''Invalid review ID''), t)
      | Some reviewId \<Rightarrow>
          (let affectedRows = length (filter (\<lambda>r. r_id r = reviewId) (rows t));
               t' = t\<lparr>rows := filter (\<lambda>r. r_id r \<noteq> reviewId) (rows t)\<rparr>
           in if affectedRows = 0 then (respond 404 (Error ''Review not found''), t')
              else (respond 200 (Message ''Review deleted successfully''), t')))"

section \<open>Token check and login\<close>

text \<open>\<open>String.prototype.split\<close> on a one-character separator.\<close>

fun split_on :: "char \<Rightarrow> string \<Rightarrow> string list" where
  "split_on sep [] = [[]]"
| "split_on sep (x # xs) =
     (if x = sep then [] # split_on sep xs
      else (case split_on sep xs of [] \<Rightarrow> [[x]] | p # ps \<Rightarrow> (x # p) # ps))"

text \<open>
  \<open>authHeader && authHeader.split(' ')[1]\<close>: an absent header gives \<open>undefined\<close>, an empty
  one gives itself, any other gives the second piece or \<open>undefined\<close>.
\<close>

definition bearer_token :: "string option \<Rightarrow> string option" where
  "bearer_token authHeader =
     (case authHeader of
        None \<Rightarrow> None
      | Some h \<Rightarrow> if h = [] then Some []
                  else (case split_on CHR '' '' h of _ # tok # _ \<Rightarrow> Some tok | _ \<Rightarrow> None))"

text \<open>
  \<open>authenticateToken\<close>. \<open>jwt_verify\<close> stands for \<open>jwt.verify\<close> with the configured secret at
  the time of the request: the decoded identity, or \<open>None\<close> for a token whose signature is
  wrong or whose expiry has passed. \<open>Inr\<close> is the call of \<open>next()\<close> with \<open>req.user\<close> set.
\<close>

definition authenticateToken :: "(string \<Rightarrow> admin_info option) \<Rightarrow> string option \<Rightarrow> response + admin_info" where
  "authenticateToken jwt_verify authHeader =
     (case bearer_token authHeader of
        None \<Rightarrow> Inl (respond 401 (Error ''Access token required''))
      | Some tok \<Rightarrow>
          if tok = [] then Inl (respond 401 (Error ''Access token required''))
          else (case jwt_verify tok of
                  None \<Rightarrow> Inl (respond 403 (Error ''Invalid token''))
                | Some user \<Rightarrow> Inr user))"

text \<open>A route registered with \<open>authenticateToken\<close> before its handler.\<close>

definition protected ::
  "(string \<Rightarrow> admin_info option) \<Rightarrow> string option \<Rightarrow> (admin_info \<Rightarrow> 's \<Rightarrow> response \<times> 's) \<Rightarrow> 's \<Rightarrow> response \<times> 's" where
  "protected jwt_verify authHeader handler s =
     (case authenticateToken jwt_verify authHeader of
        Inl r \<Rightarrow> (r, s)
      | Inr user \<Rightarrow> handler user s)"



section \<open>Paginated admin lists\<close>

record list_query =
  q_page :: jsval
  q_limit :: jsval
  q_status :: jsval

definition Math_ceil :: "rat \<Rightarrow> int" where
  "Math_ceil x = \<lceil>x\<rceil>"




section \<open>Contact form\<close>

record contact_body =
  cb_name :: jsval
  cb_phone :: jsval
  cb_email :: jsval
  cb_postalCode :: jsval

text \<open>\<open>POST /api/contact\<close>\<close>

definition post_contact ::
  "env \<Rightarrow> (mail \<Rightarrow> bool) \<Rightarrow> nat \<Rightarrow> contact_body \<Rightarrow> contact table \<Rightarrow> response \<times> contact table \<times> effects" where
  "post_contact e sendMail now b t =
     (if \<not> truthy (cb_name b) \<or> \<not> truthy (cb_phone b) \<or> \<not> truthy (cb_email b) \<or> \<not> truthy (cb_postalCode b)
      then (respond 400 (ErrorRequired ''Missing required fields'' [''name'', ''phone'', ''email'', ''postalCode'']), t, no_effects)
      else if \<not> emailRegex_test (to_string (cb_email b))
      then (respond 400 (Error ''Invalid email format''), t, no_effects)
      else if \<not> postalCodeRegex_test (to_string (cb_postalCode b))
      then (respond 400 (Error ''Postal code must be 5 digits''), t, no_effects)
      else
        (let insertId = next_id t;
             row = \<lparr>c_id = insertId, c_name = cb_name b, c_phone = cb_phone b, c_email = cb_email b,
                    c_postalCode = cb_postalCode b, c_createdAt = now\<rparr>;
             t' = \<lparr>rows = rows t @ [row], next_id = insertId + 1\<rparr>
         in (respond 201 (ContactSubmitted ''Contact form submitted successfully'' insertId),
             t',
             notify e sendMail ''Nuevo contacto desde la web - Asiste Health Care'')))"

section \<open>Blog\<close>

record blog_body =
  bb_title :: jsval
  bb_slug :: jsval
  bb_excerpt :: jsval
  bb_content :: jsval
  bb_image :: jsval
  bb_category :: jsval
  bb_tags :: jsval
  bb_metaTitle :: jsval
  bb_metaDescription :: jsval
  bb_published :: jsval
  bb_featured :: jsval

text \<open>
  \<open>content.replace(/<[^>]*>/g, '')\<close>: a \<open><\<close> that some later \<open>>\<close> closes is removed
  with everything up to the first such \<open>>\<close>; a \<open><\<close> that nothing closes stays. The flag
  says that the scan is inside a tag.
\<close>

fun strip_tags_from :: "bool \<Rightarrow> string \<Rightarrow> string" where
  "strip_tags_from inside [] = []"
| "strip_tags_from False (c # cs) =
     (if c = CHR ''<'' \<and> CHR ''>'' \<in> set cs then strip_tags_from True cs
      else c # strip_tags_from False cs)"
| "strip_tags_from True (c # cs) =
     (if c = CHR ''>'' then strip_tags_from False cs else strip_tags_from True cs)"

text \<open>
  \<open>.split(/\s+/).length\<close>: one more than the number of maximal runs of white space. The
  flag says that the previous character was white space.
\<close>

fun ws_runs :: "bool \<Rightarrow> string \<Rightarrow> nat" where
  "ws_runs prev [] = 0"
| "ws_runs prev (c # cs) =
     (if is_ws c then (if prev then 0 else 1) + ws_runs True cs else ws_runs False cs)"

definition wordCount :: "string \<Rightarrow> int" where
  "wordCount content = int (ws_runs False (strip_tags_from False content)) + 1"

text \<open>
  \<open>Math.max(1, Math.ceil(wordCount / 200))\<close>. \<open>None\<close> is the \<open>TypeError\<close> of \<open>content.replace\<close>
  on a value that is not a string.
\<close>

definition compute_readTime :: "jsval \<Rightarrow> int option" where
  "compute_readTime content =
     (case content of
        JStr c \<Rightarrow> Some (max 1 (Math_ceil (of_int (wordCount c) / 200)))
      | _ \<Rightarrow> None)"

text \<open>\<open>a || b\<close> on values.\<close>

definition js_or :: "jsval \<Rightarrow> jsval \<Rightarrow> jsval" where
  "js_or a b = (if truthy a then a else b)"

text \<open>\<open>POST /api/blog\<close>, after the token check, with \<open>req.user\<close> the decoded identity.\<close>

definition post_blog :: "nat \<Rightarrow> blog_body \<Rightarrow> admin_info \<Rightarrow> blog_post table \<Rightarrow> response \<times> blog_post table" where
  "post_blog now b user t =
     (if \<not> truthy (bb_title b) \<or> \<not> truthy (bb_slug b) \<or> \<not> truthy (bb_excerpt b)
         \<or> \<not> truthy (bb_content b) \<or> \<not> truthy (bb_category b)
      then (respond 400 (ErrorRequired ''Missing required fields''
                           [''title'', ''slug'', ''excerpt'', ''content'', ''category'']), t)
      else if filter (\<lambda>p. bp_slug p = bb_slug b) (rows t) \<noteq> []
      then (respond 400 (Error ''El slug ya existe. Elige otro slug unico.''), t)
      else (case compute_readTime (bb_content b) of
              None \<Rightarrow> (respond 500 (Error ''Internal server error''), t)
            | Some readTime \<Rightarrow>
                (let insertId = next_id t;
                     row = \<lparr>bp_id = insertId, bp_title = bb_title b, bp_slug = bb_slug b,
                            bp_excerpt = bb_excerpt b, bp_content = bb_content b,
                            bp_image = js_or (bb_image b) JNull, bp_category = bb_category b,
                            bp_tags = js_or (bb_tags b) JNull,
                            bp_metaTitle = js_or (bb_metaTitle b) (bb_title b),
                            bp_metaDescription = js_or (bb_metaDescription b) (bb_excerpt b),
                            bp_published = truthy (bb_published b),
                            bp_featured = truthy (bb_featured b),
                            bp_readTime = readTime, bp_views = 0, bp_authorId = ai_id user,
                            bp_createdAt = now, bp_updatedAt = now\<rparr>;
                     t' = \<lparr>rows = rows t @ [row], next_id = insertId + 1\<rparr>
                 in (respond 201 (PostCreated ''Blog post created successfully'' insertId), t'))))"

text \<open>The \<open>SET\<close> list built from the body, applied to one row.\<close>

definition apply_update :: "nat \<Rightarrow> blog_body \<Rightarrow> int option \<Rightarrow> blog_post \<Rightarrow> blog_post" where
  "apply_update now b readTime p =
     p\<lparr>bp_title := (if truthy (bb_title b) then bb_title b else bp_title p),
       bp_slug := (if truthy (bb_slug b) then bb_slug b else bp_slug p),
       bp_excerpt := (if truthy (bb_excerpt b) then bb_excerpt b else bp_excerpt p),
       bp_content := (if truthy (bb_content b) then bb_content b else bp_content p),
       bp_image := (if bb_image b \<noteq> JUndefined then bb_image b else bp_image p),
       bp_category := (if truthy (bb_category b) then bb_category b else bp_category p),
       bp_tags := (if bb_tags b \<noteq> JUndefined then bb_tags b else bp_tags p),
       bp_metaTitle := (if truthy (bb_metaTitle b) then bb_metaTitle b else bp_metaTitle p),
       bp_metaDescription := (if truthy (bb_metaDescription b) then bb_metaDescription b
                              else bp_metaDescription p),
       bp_published := (if bb_published b \<noteq> JUndefined then truthy (bb_published b)
                        else bp_published p),
       bp_featured := (if bb_featured b \<noteq> JUndefined then truthy (bb_featured b)
                       else bp_featured p),
       bp_readTime := (case readTime of
                         None \<Rightarrow> bp_readTime p
                       | Some rt \<Rightarrow> if rt \<noteq> 0 then rt else bp_readTime p),
       bp_updatedAt := now\<rparr>"

text \<open>\<open>PUT /api/blog/:id\<close>, after the token check.\<close>

definition put_blog :: "nat \<Rightarrow> string \<Rightarrow> blog_body \<Rightarrow> blog_post table \<Rightarrow> response \<times> blog_post table" where
  "put_blog now idParam b t =
     (case parseInt_str idParam of
        None \<Rightarrow> (respond 400 (Error ''Invalid post ID''), t)
      | Some postId \<Rightarrow>
          if truthy (bb_slug b) \<and> filter (\<lambda>p. bp_slug p = bb_slug b \<and> bp_id p \<noteq> postId) (rows t) \<noteq> []
          then (respond 400 (Error ''El slug ya existe. Elige otro slug unico.''), t)
          else if truthy (bb_content b) \<and> compute_readTime (bb_content b) = None
          then (respond 500 (Error ''Internal server error''), t)
          else
            (let readTime = (if truthy (bb_content b) then compute_readTime (bb_content b) else None);
                 affectedRows = length (filter (\<lambda>p. bp_id p = postId) (rows t));
                 t' = t\<lparr>rows := map (\<lambda>p. if bp_id p = postId then apply_update now b readTime p else p) (rows t)\<rparr>
             in if affectedRows = 0 then (respond 404 (Error ''Blog post not found''), t')
                else (respond 200 (Message ''Blog post updated successfully''), t')))"




text \<open>\<open>SET views = views + 1\<close>, on one row.\<close>

definition bump_views :: "blog_post \<Rightarrow> blog_post" where
  "bump_views p = p\<lparr>bp_views := bp_views p + 1\<rparr>"


section \<open>Routes behind the token check\<close>

text \<open>\<open>POST /api/blog\<close> and \<open>PUT /api/admin/reviews/:id/approve\<close> as registered.\<close>

definition route_post_blog ::
  "(string \<Rightarrow> admin_info option) \<Rightarrow> string option \<Rightarrow> nat \<Rightarrow> blog_body \<Rightarrow> blog_post table
     \<Rightarrow> response \<times> blog_post table" where
  "route_post_blog jwt_verify authHeader now b = protected jwt_verify authHeader (post_blog now b)"


section \<open>Notions used in the statements\<close>




text \<open>
  The constraints of the \<open>blog_posts\<close> table that the handlers rely on: the primary key, the
  unique slug, and ids below the next \<open>AUTO_INCREMENT\<close> value.
\<close>

definition posts_wf :: "blog_post table \<Rightarrow> bool" where
  "posts_wf t = (distinct (map bp_id (rows t)) \<and> distinct (map bp_slug (rows t))
                 \<and> list_all (\<lambda>p. bp_id p < next_id t) (rows t))"

text \<open>
  A row after an update with body \<open>b\<close> at time \<open>now\<close>: a text field changes when the body
  gives it a truthy value; image, tags, published and featured change when the body gives
  them any value but \<open>undefined\<close>; the read time is recomputed when the body gives a
  non-empty content; \<open>updatedAt\<close> is the time of the request; id, views, author and creation
  time stay.
\<close>

definition updated_as :: "nat \<Rightarrow> blog_body \<Rightarrow> blog_post \<Rightarrow> blog_post \<Rightarrow> bool" where
  "updated_as now b p p' =
     (bp_id p' = bp_id p \<and> bp_views p' = bp_views p \<and> bp_authorId p' = bp_authorId p
      \<and> bp_createdAt p' = bp_createdAt p \<and> bp_updatedAt p' = now
      \<and> bp_title p' = (if truthy (bb_title b) then bb_title b else bp_title p)
      \<and> bp_slug p' = (if truthy (bb_slug b) then bb_slug b else bp_slug p)
      \<and> bp_excerpt p' = (if truthy (bb_excerpt b) then bb_excerpt b else bp_excerpt p)
      \<and> bp_content p' = (if truthy (bb_content b) then bb_content b else bp_content p)
      \<and> bp_category p' = (if truthy (bb_category b) then bb_category b else bp_category p)
      \<and> bp_metaTitle p' = (if truthy (bb_metaTitle b) then bb_metaTitle b else bp_metaTitle p)
      \<and> bp_metaDescription p' = (if truthy (bb_metaDescription b) then bb_metaDescription b
                                  else bp_metaDescription p)
      \<and> bp_image p' = (if bb_image b = JUndefined then bp_image p else bb_image b)
      \<and> bp_tags p' = (if bb_tags b = JUndefined then bp_tags p else bb_tags b)
      \<and> bp_published p' = (if bb_published b = JUndefined then bp_published p
                            else truthy (bb_published b))
      \<and> bp_featured p' = (if bb_featured b = JUndefined then bp_featured p
                           else truthy (bb_featured b))
      \<and> bp_readTime p' = (case bb_content b of
                            JStr c \<Rightarrow> if c = [] then bp_readTime p
                                      else max 1 (Math_ceil (of_int (wordCount c) / 200))
                          | _ \<Rightarrow> bp_readTime p))"

text \<open>The message handed to the transport after a contact submission.\<close>

definition contact_mail :: "env \<Rightarrow> mail" where
  "contact_mail e = \<lparr>m_from = the (SMTP_USER e), m_to = the (CONTACT_EMAIL e),
                     m_subject = ''Nuevo contacto desde la web - Asiste Health Care''\<rparr>"

section \<open>Example stores\<close>

definition example_contact_body :: contact_body where
  "example_contact_body =
     \<lparr>cb_name = JStr ''Ana'', cb_phone = JStr ''555-1'', cb_email = JStr ''a@b.com'',
      cb_postalCode = JStr ''28001''\<rparr>"

definition example_env :: env where
  "example_env = \<lparr>SMTP_USER = Some ''web@asiste.example'', CONTACT_EMAIL = Some ''info@asiste.example''\<rparr>"




definition example_post :: "int \<Rightarrow> string \<Rightarrow> string \<Rightarrow> bool \<Rightarrow> nat \<Rightarrow> blog_post" where
  "example_post i slug category published created =
     \<lparr>bp_id = i, bp_title = JStr ''Cuidar en casa'', bp_slug = JStr slug,
      bp_excerpt = JStr ''Resumen'', bp_content = JStr ''<p>Hola mundo</p>'', bp_image = JNull,
      bp_category = JStr category, bp_tags = JNull, bp_metaTitle = JStr ''Cuidar en casa'',
      bp_metaDescription = JStr ''Resumen'', bp_published = published, bp_featured = False,
      bp_readTime = 1, bp_views = 0, bp_authorId = 1, bp_createdAt = created,
      bp_updatedAt = created\<rparr>"

definition example_posts :: "blog_post table" where
  "example_posts =
     \<lparr>rows = [example_post 1 ''alpha'' ''salud'' True 10,
              example_post 2 ''draft'' ''salud'' False 20,
              example_post 3 ''gamma'' ''salud'' True 30,
              example_post 4 ''delta'' ''hogar'' True 40],
      next_id = 5\<rparr>"

definition example_slug_update :: "string \<Rightarrow> blog_body" where
  "example_slug_update s =
     \<lparr>bb_title = JUndefined, bb_slug = JStr s, bb_excerpt = JUndefined, bb_content = JUndefined,
      bb_image = JUndefined, bb_category = JUndefined, bb_tags = JUndefined,
      bb_metaTitle = JUndefined, bb_metaDescription = JUndefined, bb_published = JUndefined,
      bb_featured = JUndefined\<rparr>"

definition example_new_post :: "string \<Rightarrow> string \<Rightarrow> blog_body" where
  "example_new_post s c =
     \<lparr>bb_title = JStr ''Nuevo'', bb_slug = JStr s, bb_excerpt = JStr ''Resumen'',
      bb_content = JStr c, bb_image = JUndefined, bb_category = JStr ''salud'',
      bb_tags = JUndefined, bb_metaTitle = JUndefined, bb_metaDescription = JUndefined,
      bb_published = JBool True, bb_featured = JUndefined\<rparr>"

definition example_user :: admin_info where
  "example_user = \<lparr>ai_id = 1, ai_username = ''admin'', ai_email = ''admin@asistecare.com'',
                    ai_name = ''Administrador''\<rparr>"

definition long_content :: string where
  "long_content = concat (replicate 200 ''a '') @ ''a''"

definition example_long_table :: "blog_post table" where
  "example_long_table =
     snd (post_blog 10 (example_new_post ''largo'' long_content) example_user \<lparr>rows = [], next_id = 1\<rparr>)"

definition example_content_update :: blog_body where
  "example_content_update =
     \<lparr>bb_title = JUndefined, bb_slug = JUndefined, bb_excerpt = JUndefined,
      bb_content = JStr ''Hola'', bb_image = JUndefined, bb_category = JUndefined,
      bb_tags = JUndefined, bb_metaTitle = JUndefined, bb_metaDescription = JUndefined,
      bb_published = JUndefined, bb_featured = JUndefined\<rparr>"

definition example_title_update :: blog_body where
  "example_title_update =
     \<lparr>bb_title = JStr ''Nuevo titulo'', bb_slug = JUndefined, bb_excerpt = JStr [],
      bb_content = JUndefined, bb_image = JNull, bb_category = JUndefined,
      bb_tags = JUndefined, bb_metaTitle = JUndefined, bb_metaDescription = JUndefined,
      bb_published = JBool False, bb_featured = JUndefined\<rparr>"

definition example_reviews :: "review table" where
  "example_reviews =
     \<lparr>rows = [\<lparr>r_id = 1, r_name = JStr ''Ana'', r_email = JStr ''a@b.com'', r_rating = 4,
               r_comment = JStr ''Very kind staff'', r_approved = False, r_createdAt = 100,
               r_updatedAt = 100\<rparr>,
              \<lparr>r_id = 2, r_name = JStr ''Luis'', r_email = JStr ''l@b.com'', r_rating = 5,
               r_comment = JStr ''Excellent care'', r_approved = True, r_createdAt = 150,
               r_updatedAt = 160\<rparr>],
      next_id = 3\<rparr>"


section \<open>Ordering and paging of query results\<close>

lemma order_by_desc_sorted: "sorted_wrt (\<lambda>a b. f b \<le> f a) (order_by_desc f rs)"
proof -
  have "sorted (map (\<lambda>r. - int (f r)) (order_by_desc f rs))"
    unfolding order_by_desc_def by (rule sorted_sort_key)
  then show ?thesis
    by (simp add: sorted_map)
qed

lemma order_by_desc_set: "set (order_by_desc f rs) = set rs"
  by (simp add: order_by_desc_def)

lemma order_by_desc_length: "length (order_by_desc f rs) = length rs"
  by (simp add: order_by_desc_def)









section \<open>The guard on page and limit\<close>





section \<open>Review submission: the rating is parsed before it is checked\<close>

text \<open>
  C10: a review submission whose other fields pass validation is decided by
  \<open>parseInt(rating)\<close> alone: when the parsed integer lies in 1..5 the review is accepted
  with status 201 and the stored rating is the parsed integer, whatever followed the
  digits in the submitted value; when nothing parses or the integer is out of range the
  submission is rejected with status 400 and nothing is stored.
\<close>

theorem post_reviews_rating_parsed:
  assumes "truthy (rb_name b)" and "truthy (rb_email b)" and "truthy (rb_rating b)"
    and "truthy (rb_comment b)"
    and "emailRegex_test (to_string (rb_email b))"
    and "\<not> length_lt (rb_comment b) 10" and "\<not> length_gt (rb_comment b) 1000"
  shows "post_reviews e sendMail now b t =
     (case parseInt (rb_rating b) of
        None \<Rightarrow> (respond 400 (Error ''Rating must be between 1 and 5''), t, no_effects)
      | Some k \<Rightarrow>
          if 1 \<le> k \<and> k \<le> 5
          then (respond 201 (ReviewSubmitted ''Review submitted successfully and is pending approval'' (next_id t)),
                \<lparr>rows = rows t @ [\<lparr>r_id = next_id t, r_name = rb_name b, r_email = rb_email b,
                                     r_rating = k, r_comment = rb_comment b, r_approved = False,
                                     r_createdAt = now, r_updatedAt = now\<rparr>],
                 next_id = next_id t + 1\<rparr>,
                notify e sendMail ''Nueva resena pendiente de aprobacion - Asiste Health Care'')
          else (respond 400 (Error ''Rating must be between 1 and 5''), t, no_effects))"
  using assms by (simp add: post_reviews_def Let_def split: option.split)

text \<open>The rating \<open>"4.9"\<close> is accepted and stored as 4.\<close>

theorem post_reviews_rating_parsed_witness:
  "post_reviews \<lparr>SMTP_USER = None, CONTACT_EMAIL = None\<rparr> (\<lambda>m. True) 100
      \<lparr>rb_name = JStr ''Ana'', rb_email = JStr ''a@b.com'', rb_rating = JStr ''4.9'',
       rb_comment = JStr ''Very kind staff''\<rparr> \<lparr>rows = [], next_id = 1\<rparr>
   = (respond 201 (ReviewSubmitted ''Review submitted successfully and is pending approval'' 1),
      \<lparr>rows = [\<lparr>r_id = 1, r_name = JStr ''Ana'', r_email = JStr ''a@b.com'', r_rating = 4,
                 r_comment = JStr ''Very kind staff'', r_approved = False, r_createdAt = 100,
                 r_updatedAt = 100\<rparr>], next_id = 2\<rparr>,
      \<lparr>attempted = [], logged = []\<rparr>)"
proof -
  let ?b = "\<lparr>rb_name = JStr ''Ana'', rb_email = JStr ''a@b.com'', rb_rating = JStr ''4.9'',
       rb_comment = JStr ''Very kind staff''\<rparr>"
  have h5: "emailRegex_test (to_string (rb_email ?b))" by code_simp
  have h6: "\<not> length_lt (rb_comment ?b) 10" by code_simp
  have h7: "\<not> length_gt (rb_comment ?b) 1000" by code_simp
  have p: "parseInt (rb_rating ?b) = Some 4" by code_simp
  show ?thesis
    using post_reviews_rating_parsed [of ?b, OF _ _ _ _ h5 h6 h7,
        of "\<lparr>SMTP_USER = None, CONTACT_EMAIL = None\<rparr>" "\<lambda>m. True" 100 "\<lparr>rows = [], next_id = 1\<rparr>"] p
    by (simp add: notify_def env_set_def)
qed

section \<open>Approval of reviews\<close>

lemma approve_unfold:
  assumes "parseInt_str idParam = Some k"
  shows "put_reviews_approve now idParam t =
     (if k \<in> r_id ` set (rows t)
      then respond 200 (ReviewApproved ''Review approved successfully''
             (find (\<lambda>r. r_id r = k) (map (approve_row now k) (rows t))))
      else respond 404 (Error ''Review not found''),
      t\<lparr>rows := map (approve_row now k) (rows t)\<rparr>)"
proof -
  have "(filter (\<lambda>r. r_id r = k) (rows t) = []) = (k \<notin> r_id ` set (rows t))"
    by (auto simp: filter_empty_conv)
  then show ?thesis
    using assms by (auto simp: put_reviews_approve_def Let_def approve_row_def)
qed

lemma approve_row_id [simp]: "r_id (approve_row now k r) = r_id r"
  by (simp add: approve_row_def)

lemma approve_row_keeps: "r_approved r \<Longrightarrow> r_approved (approve_row now k r)"
  by (simp add: approve_row_def)

lemma approve_row_hit: "r_id r = k \<Longrightarrow> r_approved (approve_row now k r)"
  by (simp add: approve_row_def)

lemma approve_rows_missing:
  "k \<notin> r_id ` set rs \<Longrightarrow> map (approve_row now k) rs = rs"
  by (induction rs) (auto simp: approve_row_def)

lemma approve_row_twice: "approve_row now k (approve_row now k r) = approve_row now k r"
  by (simp add: approve_row_def)

lemma approve_row_again:
  "r_approved (approve_row now' k (approve_row now k r)) = r_approved (approve_row now k r)"
  by (simp add: approve_row_def)

lemma find_approved:
  assumes "k \<in> r_id ` set rs"
  shows "\<exists>r\<in>set (map (approve_row now k) rs). r_id r = k \<and> r_approved r
           \<and> find (\<lambda>r. r_id r = k) (map (approve_row now k) rs) = Some r"
  using assms
proof (induction rs)
  case Nil
  then show ?case by simp
next
  case (Cons a rs)
  show ?case
  proof (cases "r_id a = k")
    case True
    then show ?thesis by (simp add: approve_row_def)
  next
    case False
    with Cons.prems have "k \<in> r_id ` set rs" by auto
    from Cons.IH [OF this] False show ?thesis by (auto simp: approve_row_def)
  qed
qed

lemma approve_row_comp: "approve_row now' k \<circ> approve_row now k = (\<lambda>r. approve_row now' k (approve_row now k r))"
  by (simp add: fun_eq_iff)

lemma approve_all_approved: "\<forall>r\<in>set (map (approve_row now k) rs). r_id r = k \<longrightarrow> r_approved r"
  by (simp add: approve_row_hit)

lemma approve_frame: "\<forall>i<length rs.
                  r_id (map (approve_row now k) rs ! i) = r_id (rs ! i)
                \<and> (r_approved (rs ! i) \<longrightarrow> r_approved (map (approve_row now k) rs ! i))"
    by (simp add: approve_row_keeps)

lemma approve_same: "parseInt_str idParam = Some k \<Longrightarrow> k \<in> r_id ` set (rows t) \<Longrightarrow> put_reviews_approve now idParam (t\<lparr>rows := map (approve_row now k) (rows t)\<rparr>) = put_reviews_approve now idParam t"
    by (simp add: approve_unfold image_image approve_row_twice approve_row_comp)

lemma post_reviews_pending: "case post_reviews e sendMail now0 b t0 of
            (res, t', eff) \<Rightarrow>
              rows t' = rows t0 \<or> (\<exists>row. \<not> r_approved row \<and> rows t' = rows t0 @ [row])"
    by (simp add: post_reviews_def Let_def split: option.split)

lemma approve_again:
  assumes "parseInt_str idParam = Some k" and "k \<in> r_id ` set (rows t)"
  shows "case put_reviews_approve now' idParam (t\<lparr>rows := map (approve_row now k) (rows t)\<rparr>) of
           (res2, t2) \<Rightarrow>
              map r_approved (rows t2) = map r_approved (map (approve_row now k) (rows t))
            \<and> (\<exists>r\<in>set (rows t2). r_id r = k \<and> r_approved r
                  \<and> res2 = respond 200 (ReviewApproved ''Review approved successfully'' (Some r)))"
proof -
  let ?rs = "map (approve_row now k) (rows t)"
  from assms(2) have "k \<in> r_id ` set ?rs" by (simp add: image_image)
  from find_approved [OF this, of now'] obtain r where
    "r \<in> set (map (approve_row now' k) ?rs)" "r_id r = k" "r_approved r"
    "find (\<lambda>r. r_id r = k) (map (approve_row now' k) ?rs) = Some r" by blast
  moreover have "map r_approved (map (approve_row now' k) ?rs) = map r_approved ?rs"
    by (simp add: approve_row_again)
  ultimately show ?thesis
    using assms(2) by (auto simp: approve_unfold [OF assms(1)] image_image)
qed

text \<open>
  C3: a submitted review is stored with \<open>approved\<close> false. Approving an id that no review
  has answers 404 and leaves the table as it was. Approving an existing id answers 200 with
  the current row, which is approved; approving it again, at the same or a later time,
  answers 200 with the current row again and changes no \<open>approved\<close> flag. No approval turns
  an approved review into one that is not.
\<close>

theorem review_approval:
  assumes "parseInt_str idParam = Some k"
  shows "(case post_reviews e sendMail now0 b t0 of
            (res, t', eff) \<Rightarrow>
              rows t' = rows t0 \<or> (\<exists>row. \<not> r_approved row \<and> rows t' = rows t0 @ [row]))
       \<and> (case put_reviews_approve now idParam t of
            (res, t') \<Rightarrow>
              (k \<notin> r_id ` set (rows t) \<longrightarrow> res = respond 404 (Error ''Review not found'') \<and> t' = t)
            \<and> (k \<in> r_id ` set (rows t) \<longrightarrow>
                 (\<exists>r\<in>set (rows t'). r_id r = k \<and> r_approved r
                     \<and> res = respond 200 (ReviewApproved ''Review approved successfully'' (Some r)))
               \<and> (\<forall>r\<in>set (rows t'). r_id r = k \<longrightarrow> r_approved r)
               \<and> put_reviews_approve now idParam t' = (res, t')
               \<and> (\<forall>now'. case put_reviews_approve now' idParam t' of
                     (res2, t2) \<Rightarrow>
                       map r_approved (rows t2) = map r_approved (rows t')
                     \<and> (\<exists>r\<in>set (rows t2). r_id r = k \<and> r_approved r
                           \<and> res2 = respond 200 (ReviewApproved ''Review approved successfully'' (Some r)))))
            \<and> length (rows t') = length (rows t)
            \<and> (\<forall>i<length (rows t).
                  r_id (rows t' ! i) = r_id (rows t ! i)
                \<and> (r_approved (rows t ! i) \<longrightarrow> r_approved (rows t' ! i))))"
proof -
  define rs' where "rs' = map (approve_row now k) (rows t)"
  define t' where "t' = t\<lparr>rows := rs'\<rparr>"
  define res where "res = (if k \<in> r_id ` set (rows t)
      then respond 200 (ReviewApproved ''Review approved successfully'' (find (\<lambda>r. r_id r = k) rs'))
      else respond 404 (Error ''Review not found''))"
  have run: "put_reviews_approve now idParam t = (res, t')"
    by (simp add: approve_unfold [OF assms] res_def t'_def rs'_def)
  have rows': "rows t' = rs'" by (simp add: t'_def)
  have c1: "res = respond 404 (Error ''Review not found'') \<and> t' = t" if "k \<notin> r_id ` set (rows t)"
    using that by (simp add: res_def t'_def rs'_def approve_rows_missing)
  have c2: "\<exists>r\<in>set (rows t'). r_id r = k \<and> r_approved r
                     \<and> res = respond 200 (ReviewApproved ''Review approved successfully'' (Some r))"
    if "k \<in> r_id ` set (rows t)"
    using find_approved [OF that, of now] that by (auto simp: rows' rs'_def res_def)
  have c3: "\<forall>r\<in>set (rows t'). r_id r = k \<longrightarrow> r_approved r"
    unfolding rows' rs'_def by (rule approve_all_approved)
  have c4: "put_reviews_approve now idParam t' = (res, t')" if "k \<in> r_id ` set (rows t)"
    using approve_same [OF assms that, of now] by (simp add: t'_def rs'_def run)
  have c5: "\<forall>now'. case put_reviews_approve now' idParam t' of
                     (res2, t2) \<Rightarrow>
                       map r_approved (rows t2) = map r_approved (rows t')
                     \<and> (\<exists>r\<in>set (rows t2). r_id r = k \<and> r_approved r
                           \<and> res2 = respond 200 (ReviewApproved ''Review approved successfully'' (Some r)))"
    if "k \<in> r_id ` set (rows t)"
    unfolding rows' unfolding t'_def rs'_def by (intro allI) (rule approve_again [OF assms that])
  have c6: "length (rows t') = length (rows t)"
    by (simp add: rows' rs'_def)
  have c7: "\<forall>i<length (rows t).
                  r_id (rows t' ! i) = r_id (rows t ! i)
                \<and> (r_approved (rows t ! i) \<longrightarrow> r_approved (rows t' ! i))"
    unfolding rows' rs'_def by (rule approve_frame)
  show ?thesis
    unfolding run prod.case
    apply (intro conjI impI)
            apply (rule post_reviews_pending)
           apply (erule c1 [THEN conjunct1])
          apply (erule c1 [THEN conjunct2])
         apply (erule c2)
        apply (rule c3)
       apply (erule c4)
      apply (erule c5)
     apply (rule c6)
    apply (rule c7)
    done
qed

theorem review_approval_witness:
  "parseInt_str ''1'' = Some 1 \<and> 1 \<in> r_id ` set (rows example_reviews)
   \<and> status (fst (put_reviews_approve 200 ''1'' example_reviews)) = 200
   \<and> map r_approved (rows (snd (put_reviews_approve 200 ''1'' example_reviews))) = [True, True]
   \<and> put_reviews_approve 200 ''1'' (snd (put_reviews_approve 200 ''1'' example_reviews))
       = put_reviews_approve 200 ''1'' example_reviews
   \<and> parseInt_str ''7'' = Some 7 \<and> 7 \<notin> r_id ` set (rows example_reviews)
   \<and> put_reviews_approve 200 ''7'' example_reviews
       = (respond 404 (Error ''Review not found''), example_reviews)"
proof -
  have h1: "parseInt_str ''1'' = Some 1" by code_simp
  have h7: "parseInt_str ''7'' = Some 7" by code_simp
  have in1: "1 \<in> r_id ` set (rows example_reviews)" by (simp add: example_reviews_def)
  have out7: "7 \<notin> r_id ` set (rows example_reviews)" by (simp add: example_reviews_def)
  obtain res t' where run: "put_reviews_approve 200 ''1'' example_reviews = (res, t')"
    by (cases "put_reviews_approve 200 ''1'' example_reviews")
  have ev: "status res = 200 \<and> map r_approved (rows t') = [True, True]"
    using run [symmetric] by (simp add: put_reviews_approve_def approve_row_def h1 example_reviews_def Let_def respond_def)
  from review_approval [OF h1, where now = 200 and t = example_reviews] in1
  have "put_reviews_approve 200 ''1'' t' = (res, t')"
    unfolding run prod.case by blast
  moreover
  obtain res7 t7 where run7: "put_reviews_approve 200 ''7'' example_reviews = (res7, t7)"
    by (cases "put_reviews_approve 200 ''7'' example_reviews")
  from review_approval [OF h7, where now = 200 and t = example_reviews] out7
  have "res7 = respond 404 (Error ''Review not found'') \<and> t7 = example_reviews"
    unfolding run7 prod.case by blast
  ultimately show ?thesis
    using h1 h7 in1 out7 ev by (simp add: run run7)
qed

section \<open>The public review list\<close>

lemma take_sorted_bound:
  assumes "sorted_wrt (\<lambda>a b. f b \<le> f a) xs" and "r \<in> set xs" and "r \<notin> set (take n xs)"
    and "x \<in> set (take n xs)"
  shows "f r \<le> f x"
proof -
  from assms(2,3) have "r \<in> set (drop n xs)"
    by (metis Un_iff append_take_drop_id set_append)
  moreover from assms(1) have "sorted_wrt (\<lambda>a b. f b \<le> f a) (take n xs @ drop n xs)" by simp
  ultimately show ?thesis
    using assms(4) by (auto simp: sorted_wrt_append simp del: append_take_drop_id)
qed

text \<open>
  C9: the public review list answers with approved reviews of the table only, newest first,
  at most 50 of them (all of them when there are fewer), none of the approved reviews left
  out being newer than one returned; the answer does not depend on the request.
\<close>

theorem get_reviews_public:
  "\<exists>rs. get_reviews req t = respond 200 (PublicReviews rs)
       \<and> length rs = min 50 (length (filter r_approved (rows t)))
       \<and> (\<forall>r\<in>set rs. r_approved r \<and> r \<in> set (rows t))
       \<and> sorted_wrt (\<lambda>a b. r_createdAt b \<le> r_createdAt a) rs
       \<and> (\<forall>r\<in>set (rows t). r_approved r \<and> r \<notin> set rs \<longrightarrow> (\<forall>x\<in>set rs. r_createdAt r \<le> r_createdAt x))
       \<and> get_reviews req' t = get_reviews req t"
proof -
  define xs where "xs = order_by_desc r_createdAt (filter r_approved (rows t))"
  define rs where "rs = take 50 xs"
  have srt: "sorted_wrt (\<lambda>a b. r_createdAt b \<le> r_createdAt a) xs"
    unfolding xs_def by (rule order_by_desc_sorted)
  have 1: "get_reviews req t = respond 200 (PublicReviews rs)"
    by (simp add: get_reviews_def rs_def xs_def)
  have 2: "length rs = min 50 (length (filter r_approved (rows t)))"
    by (simp add: rs_def xs_def min.commute order_by_desc_length)
  have sub: "set rs \<subseteq> set xs" unfolding rs_def by (rule set_take_subset)
  have setxs: "set xs = {r \<in> set (rows t). r_approved r}"
    by (auto simp: xs_def order_by_desc_set)
  have 3: "\<forall>r\<in>set rs. r_approved r \<and> r \<in> set (rows t)"
    using sub setxs by blast
  have 4: "sorted_wrt (\<lambda>a b. r_createdAt b \<le> r_createdAt a) rs"
    unfolding rs_def using srt by (rule sorted_wrt_take)
  have 5: "\<forall>r\<in>set (rows t). r_approved r \<and> r \<notin> set rs \<longrightarrow> (\<forall>x\<in>set rs. r_createdAt r \<le> r_createdAt x)"
  proof (intro ballI impI)
    fix r x assume "r \<in> set (rows t)" "r_approved r \<and> r \<notin> set rs" "x \<in> set rs"
    then have "r \<in> set xs" "r \<notin> set (take 50 xs)" "x \<in> set (take 50 xs)"
      by (simp_all add: setxs rs_def)
    with srt show "r_createdAt r \<le> r_createdAt x" by (rule take_sorted_bound)
  qed
  have 6: "get_reviews req' t = get_reviews req t"
    by (simp add: get_reviews_def)
  from 1 2 3 4 5 6 show ?thesis by blast
qed

theorem get_reviews_public_witness:
  "get_reviews \<lparr>q_page = JStr ''2'', q_limit = JStr ''1'', q_status = JUndefined\<rparr> example_reviews
     = respond 200 (PublicReviews [rows example_reviews ! 1])
   \<and> r_approved (rows example_reviews ! 1)"
proof -
  let ?q = "\<lparr>q_page = JStr ''2'', q_limit = JStr ''1'', q_status = JUndefined\<rparr>"
  have ev: "get_reviews ?q example_reviews = respond 200 (PublicReviews [rows example_reviews ! 1])"
    by (simp add: get_reviews_def order_by_desc_def example_reviews_def)
  from get_reviews_public [of ?q example_reviews ?q]
  obtain rs where rs: "get_reviews ?q example_reviews = respond 200 (PublicReviews rs)"
    and mem: "\<forall>r\<in>set rs. r_approved r \<and> r \<in> set (rows example_reviews)"
    by (elim exE conjE) (rule that, assumption+)
  from rs ev have "rs = [rows example_reviews ! 1]"
    by (simp add: respond_def)
  with mem have "r_approved (rows example_reviews ! 1)" by simp
  with ev show ?thesis by simp
qed

section \<open>Contact submissions\<close>

lemma notify_cases:
  "attempted (notify e sendMail subj) =
     (if env_set (SMTP_USER e) \<and> env_set (CONTACT_EMAIL e)
      then [\<lparr>m_from = the (SMTP_USER e), m_to = the (CONTACT_EMAIL e), m_subject = subj\<rparr>] else [])"
  "logged (notify e sendMail subj) =
     (if env_set (SMTP_USER e) \<and> env_set (CONTACT_EMAIL e)
         \<and> \<not> sendMail \<lparr>m_from = the (SMTP_USER e), m_to = the (CONTACT_EMAIL e), m_subject = subj\<rparr>
      then [''Error sending notification email:''] else [])"
  by (simp_all add: notify_def Let_def)

text \<open>
  C7: a contact submission that passes validation stores one row with the submitted fields
  and the time of the request and is answered with 201 and the generated id, whatever the
  environment and the transport do: the notification is attempted only when both
  environment variables are set, and a failure of the transport only adds a log entry.
\<close>

theorem post_contact_stored:
  assumes "truthy (cb_name b)" and "truthy (cb_phone b)" and "truthy (cb_email b)"
    and "truthy (cb_postalCode b)"
    and "emailRegex_test (to_string (cb_email b))"
    and "postalCodeRegex_test (to_string (cb_postalCode b))"
  shows "\<exists>eff. post_contact e sendMail now b t =
           (respond 201 (ContactSubmitted ''Contact form submitted successfully'' (next_id t)),
            \<lparr>rows = rows t @ [\<lparr>c_id = next_id t, c_name = cb_name b, c_phone = cb_phone b,
                                c_email = cb_email b, c_postalCode = cb_postalCode b,
                                c_createdAt = now\<rparr>],
             next_id = next_id t + 1\<rparr>,
            eff)
         \<and> attempted eff = (if env_set (SMTP_USER e) \<and> env_set (CONTACT_EMAIL e)
                             then [contact_mail e] else [])
         \<and> logged eff = (if env_set (SMTP_USER e) \<and> env_set (CONTACT_EMAIL e)
                              \<and> \<not> sendMail (contact_mail e)
                          then [''Error sending notification email:''] else [])"
proof -
  let ?eff = "notify e sendMail ''Nuevo contacto desde la web - Asiste Health Care''"
  have "post_contact e sendMail now b t =
           (respond 201 (ContactSubmitted ''Contact form submitted successfully'' (next_id t)),
            \<lparr>rows = rows t @ [\<lparr>c_id = next_id t, c_name = cb_name b, c_phone = cb_phone b,
                                c_email = cb_email b, c_postalCode = cb_postalCode b,
                                c_createdAt = now\<rparr>],
             next_id = next_id t + 1\<rparr>,
            ?eff)"
    using assms by (simp add: post_contact_def Let_def)
  moreover have "attempted ?eff = (if env_set (SMTP_USER e) \<and> env_set (CONTACT_EMAIL e)
                             then [contact_mail e] else [])"
    by (simp add: notify_cases contact_mail_def)
  moreover have "logged ?eff = (if env_set (SMTP_USER e) \<and> env_set (CONTACT_EMAIL e)
                              \<and> \<not> sendMail (contact_mail e)
                          then [''Error sending notification email:''] else [])"
    by (simp add: notify_cases contact_mail_def)
  ultimately show ?thesis by (intro exI [of _ ?eff] conjI)
qed

theorem post_contact_stored_witness:
  "(let stored = \<lparr>rows = [\<lparr>c_id = 1, c_name = JStr ''Ana'', c_phone = JStr ''555-1'',
                           c_email = JStr ''a@b.com'', c_postalCode = JStr ''28001'',
                           c_createdAt = 100\<rparr>], next_id = 2\<rparr>;
        created = respond 201 (ContactSubmitted ''Contact form submitted successfully'' 1);
        t = \<lparr>rows = [], next_id = 1\<rparr>
    in post_contact \<lparr>SMTP_USER = None, CONTACT_EMAIL = None\<rparr> (\<lambda>m. False) 100 example_contact_body t
         = (created, stored, \<lparr>attempted = [], logged = []\<rparr>)
     \<and> post_contact example_env (\<lambda>m. True) 100 example_contact_body t
         = (created, stored, \<lparr>attempted = [contact_mail example_env], logged = []\<rparr>)
     \<and> post_contact example_env (\<lambda>m. False) 100 example_contact_body t
         = (created, stored, \<lparr>attempted = [contact_mail example_env],
                              logged = [''Error sending notification email:'']\<rparr>))"
proof -
  let ?b = example_contact_body
  let ?t = "\<lparr>rows = [], next_id = 1\<rparr> :: contact table"
  have h: "truthy (cb_name ?b)" "truthy (cb_phone ?b)" "truthy (cb_email ?b)" "truthy (cb_postalCode ?b)"
    by (simp_all add: example_contact_body_def)
  have h5: "emailRegex_test (to_string (cb_email ?b))" by code_simp
  have h6: "postalCodeRegex_test (to_string (cb_postalCode ?b))" by code_simp
  have env: "\<not> env_set (SMTP_USER \<lparr>SMTP_USER = None, CONTACT_EMAIL = None\<rparr>)"
    "env_set (SMTP_USER example_env)" "env_set (CONTACT_EMAIL example_env)"
    by (simp_all add: env_set_def example_env_def)
  have eq: "eff = \<lparr>attempted = attempted eff, logged = logged eff\<rparr>" for eff :: effects
    by simp
  note inst = post_contact_stored [OF h h5 h6, where now = 100 and t = ?t]
  let ?created = "respond 201 (ContactSubmitted ''Contact form submitted successfully'' 1)"
  let ?stored = "\<lparr>rows = [\<lparr>c_id = 1, c_name = JStr ''Ana'', c_phone = JStr ''555-1'',
                           c_email = JStr ''a@b.com'', c_postalCode = JStr ''28001'',
                           c_createdAt = 100\<rparr>], next_id = 2\<rparr>"
  have "\<exists>eff. post_contact \<lparr>SMTP_USER = None, CONTACT_EMAIL = None\<rparr> (\<lambda>m. False) 100 ?b ?t
           = (?created, ?stored, eff) \<and> attempted eff = [] \<and> logged eff = []"
    using inst [of "\<lparr>SMTP_USER = None, CONTACT_EMAIL = None\<rparr>" "\<lambda>m. False"] env
    by (simp add: example_contact_body_def)
  then obtain eff1 where "post_contact \<lparr>SMTP_USER = None, CONTACT_EMAIL = None\<rparr> (\<lambda>m. False) 100 ?b ?t
      = (?created, ?stored, eff1)" and "attempted eff1 = []" and "logged eff1 = []"
    by (elim exE conjE) (rule that, assumption+)
  moreover
  have "\<exists>eff. post_contact example_env (\<lambda>m. True) 100 ?b ?t
           = (?created, ?stored, eff) \<and> attempted eff = [contact_mail example_env] \<and> logged eff = []"
    using inst [of example_env "\<lambda>m. True"] env
    by (simp add: example_contact_body_def)
  then obtain eff2 where "post_contact example_env (\<lambda>m. True) 100 ?b ?t
      = (?created, ?stored, eff2)" and "attempted eff2 = [contact_mail example_env]" and "logged eff2 = []"
    by (elim exE conjE) (rule that, assumption+)
  moreover
  have "\<exists>eff. post_contact example_env (\<lambda>m. False) 100 ?b ?t
           = (?created, ?stored, eff) \<and> attempted eff = [contact_mail example_env]
             \<and> logged eff = [''Error sending notification email:'']"
    using inst [of example_env "\<lambda>m. False"] env
    by (simp add: example_contact_body_def)
  then obtain eff3 where "post_contact example_env (\<lambda>m. False) 100 ?b ?t
      = (?created, ?stored, eff3)" and "attempted eff3 = [contact_mail example_env]"
    and "logged eff3 = [''Error sending notification email:'']"
    by (elim exE conjE) (rule that, assumption+)
  ultimately show ?thesis
    using eq [of eff1] eq [of eff2] eq [of eff3] by (simp add: Let_def)
qed

section \<open>Token check and login\<close>





section \<open>Reading a post by its slug\<close>





lemma bump_views_fields [simp]:
  "bp_id (bump_views p) = bp_id p" "bp_category (bump_views p) = bp_category p"
  "bp_published (bump_views p) = bp_published p" "bp_createdAt (bump_views p) = bp_createdAt p"
  by (simp_all add: bump_views_def)






section \<open>Creating and updating posts\<close>

lemma apply_update_id [simp]: "bp_id (apply_update now b rt p) = bp_id p"
  by (simp add: apply_update_def)

lemma apply_update_slug:
  "bp_slug (apply_update now b rt p) = (if truthy (bb_slug b) then bb_slug b else bp_slug p)"
  by (simp add: apply_update_def)

lemma put_blog_unfold:
  assumes "parseInt_str idParam = Some k"
  shows "put_blog now idParam b t =
     (if truthy (bb_slug b) \<and> (\<exists>x\<in>set (rows t). bp_slug x = bb_slug b \<and> bp_id x \<noteq> k)
      then (respond 400 (Error ''El slug ya existe. Elige otro slug unico.''), t)
      else if truthy (bb_content b) \<and> compute_readTime (bb_content b) = None
      then (respond 500 (Error ''Internal server error''), t)
      else (if k \<in> bp_id ` set (rows t)
            then respond 200 (Message ''Blog post updated successfully'')
            else respond 404 (Error ''Blog post not found''),
            t\<lparr>rows := map (\<lambda>p. if bp_id p = k
                                 then apply_update now b
                                        (if truthy (bb_content b) then compute_readTime (bb_content b) else None) p
                                 else p) (rows t)\<rparr>))"
proof -
  let ?conflict = "\<exists>x\<in>set (rows t). bp_slug x = bb_slug b \<and> bp_id x \<noteq> k"
  have 1: "(filter (\<lambda>p. bp_slug p = bb_slug b \<and> bp_id p \<noteq> k) (rows t) = []) = (\<not> ?conflict)"
    by (simp add: filter_empty_conv)
  have 2: "(filter (\<lambda>p. bp_id p = k) (rows t) = []) = (k \<notin> bp_id ` set (rows t))"
    by (auto simp: filter_empty_conv)
  show ?thesis
  proof (cases "truthy (bb_slug b) \<and> ?conflict")
    case True
    then show ?thesis by (simp add: put_blog_def assms 1)
  next
    case False
    then have nc: "\<not> (truthy (bb_slug b) \<and> filter (\<lambda>p. bp_slug p = bb_slug b \<and> bp_id p \<noteq> k) (rows t) \<noteq> [])"
      by (simp add: 1)
    show ?thesis
    proof (cases "truthy (bb_content b) \<and> compute_readTime (bb_content b) = None")
      case True
      show ?thesis
        unfolding put_blog_def assms option.case if_not_P [OF nc] if_P [OF True] if_not_P [OF False]
        by (rule refl)
    next
      case bad: False
      then have nb: "\<not> (truthy (bb_content b) \<and> compute_readTime (bb_content b) = None)" .
      show ?thesis
        unfolding put_blog_def assms option.case Let_def if_not_P [OF nc] if_not_P [OF nb]
          if_not_P [OF False] length_0_conv 2
        by simp
    qed
  qed
qed

lemma update_missing:
  "k \<notin> f ` set rs \<Longrightarrow> map (\<lambda>p. if f p = k then g p else p) rs = rs"
  by (induction rs) auto

lemma distinct_slug_update:
  assumes "distinct (map bp_id rs)" and "distinct (map bp_slug rs)"
    and "\<forall>x\<in>set rs. bp_id x \<noteq> k \<longrightarrow> bp_slug x \<noteq> s"
  shows "distinct (map (\<lambda>p. if bp_id p = k then s else bp_slug p) rs)"
  using assms
proof (induction rs)
  case Nil
  then show ?case by simp
next
  case (Cons a rs)
  from Cons.prems have ih: "distinct (map (\<lambda>p. if bp_id p = k then s else bp_slug p) rs)"
    by (intro Cons.IH) simp_all
  show ?case
  proof (cases "bp_id a = k")
    case True
    with Cons.prems have "\<forall>x\<in>set rs. bp_id x \<noteq> k" by (auto simp: image_iff)
    with Cons.prems have "\<forall>x\<in>set rs. (if bp_id x = k then s else bp_slug x) \<noteq> s" by simp
    with True ih show ?thesis by (auto simp: image_iff)
  next
    case False
    with Cons.prems have a: "bp_slug a \<noteq> s" "\<forall>x\<in>set rs. bp_slug x \<noteq> bp_slug a"
      by (auto simp: image_iff)
    then have "\<forall>x\<in>set rs. (if bp_id x = k then s else bp_slug x) \<noteq> bp_slug a" by auto
    with False ih show ?thesis by (auto simp: image_iff)
  qed
qed

lemma post_blog_slug_taken:
  assumes "\<exists>x\<in>set (rows t). bp_slug x = bb_slug b"
  shows "status (fst (post_blog now b user t)) = 400 \<and> snd (post_blog now b user t) = t"
proof -
  from assms have "filter (\<lambda>p. bp_slug p = bb_slug b) (rows t) \<noteq> []"
    by (simp add: filter_empty_conv)
  then show ?thesis by (simp add: post_blog_def respond_def)
qed

lemma post_blog_rows:
  "rows (snd (post_blog now b user t)) = rows t
   \<or> (\<exists>row. rows (snd (post_blog now b user t)) = rows t @ [row]
         \<and> next_id (snd (post_blog now b user t)) = next_id t + 1
         \<and> bp_id row = next_id t \<and> bp_slug row = bb_slug b
         \<and> (\<forall>x\<in>set (rows t). bp_slug x \<noteq> bb_slug b))"
  by (simp add: post_blog_def Let_def filter_empty_conv split: option.splits)

lemma put_blog_cases:
  assumes "parseInt_str idParam = Some k"
  obtains (conflict) "truthy (bb_slug b)"
      and "\<exists>x\<in>set (rows t). bp_slug x = bb_slug b \<and> bp_id x \<noteq> k"
      and "put_blog now idParam b t = (respond 400 (Error ''El slug ya existe. Elige otro slug unico.''), t)"
  | (type_error) "\<not> (truthy (bb_slug b) \<and> (\<exists>x\<in>set (rows t). bp_slug x = bb_slug b \<and> bp_id x \<noteq> k))"
      and "truthy (bb_content b)" and "compute_readTime (bb_content b) = None"
      and "put_blog now idParam b t = (respond 500 (Error ''Internal server error''), t)"
  | (updated) rt where "\<not> (truthy (bb_slug b) \<and> (\<exists>x\<in>set (rows t). bp_slug x = bb_slug b \<and> bp_id x \<noteq> k))"
      and "\<not> (truthy (bb_content b) \<and> compute_readTime (bb_content b) = None)"
      and "rt = (if truthy (bb_content b) then compute_readTime (bb_content b) else None)"
      and "put_blog now idParam b t =
            (if k \<in> bp_id ` set (rows t)
             then respond 200 (Message ''Blog post updated successfully'')
             else respond 404 (Error ''Blog post not found''),
             t\<lparr>rows := map (\<lambda>p. if bp_id p = k then apply_update now b rt p else p) (rows t)\<rparr>)"
proof (cases "truthy (bb_slug b) \<and> (\<exists>x\<in>set (rows t). bp_slug x = bb_slug b \<and> bp_id x \<noteq> k)")
  case True
  then have "put_blog now idParam b t = (respond 400 (Error ''El slug ya existe. Elige otro slug unico.''), t)"
    unfolding put_blog_unfold [OF assms] by (simp only: if_P)
  with True show ?thesis by (intro conflict) simp_all
next
  case False
  show ?thesis
  proof (cases "truthy (bb_content b) \<and> compute_readTime (bb_content b) = None")
    case True
    have "put_blog now idParam b t = (respond 500 (Error ''Internal server error''), t)"
      unfolding put_blog_unfold [OF assms] if_not_P [OF False] if_P [OF True] by (rule refl)
    with False True show ?thesis by (intro type_error) simp_all
  next
    case ok: False
    have "put_blog now idParam b t =
            (if k \<in> bp_id ` set (rows t)
             then respond 200 (Message ''Blog post updated successfully'')
             else respond 404 (Error ''Blog post not found''),
             t\<lparr>rows := map (\<lambda>p. if bp_id p = k
                                 then apply_update now b
                                        (if truthy (bb_content b) then compute_readTime (bb_content b) else None) p
                                 else p) (rows t)\<rparr>)"
      unfolding put_blog_unfold [OF assms] if_not_P [OF False] if_not_P [OF ok] by (rule refl)
    with False ok show ?thesis by (intro updated [OF _ _ refl])
  qed
qed

lemma update_ids:
  "map bp_id (map (\<lambda>p. if bp_id p = k then apply_update now b rt p else p) rs) = map bp_id rs"
  by (induction rs) simp_all

lemma update_slugs:
  "map bp_slug (map (\<lambda>p. if bp_id p = k then apply_update now b rt p else p) rs)
     = map (\<lambda>p. if bp_id p = k \<and> truthy (bb_slug b) then bb_slug b else bp_slug p) rs"
  by (induction rs) (simp_all add: apply_update_slug)

lemma put_blog_ids:
  "map bp_id (rows (snd (put_blog now idParam b t))) = map bp_id (rows t)
   \<and> next_id (snd (put_blog now idParam b t)) = next_id t"
proof (cases "parseInt_str idParam")
  case None
  then show ?thesis by (simp add: put_blog_def)
next
  case (Some k)
  then show ?thesis
  proof (cases rule: put_blog_cases [where now = now and b = b and t = t])
    case conflict
    then show ?thesis by simp
  next
    case type_error
    then show ?thesis by simp
  next
    case (updated rt)
    show ?thesis unfolding updated(4) by (simp add: update_ids)
  qed
qed

lemma put_blog_slugs:
  assumes "distinct (map bp_id (rows t))" and "distinct (map bp_slug (rows t))"
  shows "distinct (map bp_slug (rows (snd (put_blog now idParam b t))))"
proof (cases "parseInt_str idParam")
  case None
  with assms show ?thesis by (simp add: put_blog_def)
next
  case (Some k)
  then show ?thesis
  proof (cases rule: put_blog_cases [where now = now and b = b and t = t])
    case conflict
    with assms show ?thesis by simp
  next
    case type_error
    with assms show ?thesis by simp
  next
    case (updated rt)
    have "distinct (map (\<lambda>p. if bp_id p = k \<and> truthy (bb_slug b) then bb_slug b else bp_slug p) (rows t))"
    proof (cases "truthy (bb_slug b)")
      case False
      with assms show ?thesis by simp
    next
      case True
      with updated(1) have "\<forall>x\<in>set (rows t). bp_id x \<noteq> k \<longrightarrow> bp_slug x \<noteq> bb_slug b" by blast
      from distinct_slug_update [OF assms this] True show ?thesis by simp
    qed
    then show ?thesis unfolding updated(4) by (simp add: update_slugs del: map_map)
  qed
qed

lemma post_blog_wf:
  assumes "posts_wf t"
  shows "posts_wf (snd (post_blog now b user t))"
proof -
  from post_blog_rows [of now b user t] show ?thesis
  proof
    assume "rows (snd (post_blog now b user t)) = rows t"
    moreover have "next_id (snd (post_blog now b user t)) = next_id t \<or>
                   next_id (snd (post_blog now b user t)) = next_id t + 1"
      by (simp add: post_blog_def Let_def split: option.splits)
    ultimately show ?thesis
      using assms by (auto simp: posts_wf_def list_all_iff)
  next
    assume "\<exists>row. rows (snd (post_blog now b user t)) = rows t @ [row]
         \<and> next_id (snd (post_blog now b user t)) = next_id t + 1
         \<and> bp_id row = next_id t \<and> bp_slug row = bb_slug b
         \<and> (\<forall>x\<in>set (rows t). bp_slug x \<noteq> bb_slug b)"
    then obtain row where "rows (snd (post_blog now b user t)) = rows t @ [row]"
      "next_id (snd (post_blog now b user t)) = next_id t + 1"
      "bp_id row = next_id t" "bp_slug row = bb_slug b" "\<forall>x\<in>set (rows t). bp_slug x \<noteq> bb_slug b"
      by (elim exE conjE) (rule that, assumption+)
    with assms show ?thesis
      by (auto simp: posts_wf_def list_all_iff)
  qed
qed

lemma put_blog_wf:
  assumes "posts_wf t"
  shows "posts_wf (snd (put_blog now idParam b t))"
proof -
  from assms have d: "distinct (map bp_id (rows t))" "distinct (map bp_slug (rows t))"
    and lt: "\<forall>i\<in>set (map bp_id (rows t)). i < next_id t"
    by (simp_all add: posts_wf_def list_all_iff)
  have "list_all (\<lambda>p. bp_id p < next_id (snd (put_blog now idParam b t)))
          (rows (snd (put_blog now idParam b t)))
        = (\<forall>i\<in>set (map bp_id (rows (snd (put_blog now idParam b t)))).
              i < next_id (snd (put_blog now idParam b t)))"
    by (simp add: list_all_iff)
  with lt d put_blog_slugs [OF d, of now idParam b] put_blog_ids [of now idParam b t]
  show ?thesis
    unfolding posts_wf_def by (simp del: set_map)
qed

lemma put_blog_own_slug:
  assumes k: "parseInt_str idParam = Some k" and p: "p \<in> set (rows t)" and id: "bp_id p = k"
    and own: "bb_slug b = bp_slug p" and slugs: "distinct (map bp_slug (rows t))"
    and content: "truthy (bb_content b) \<longrightarrow> (\<exists>c. bb_content b = JStr c)"
  shows "fst (put_blog now idParam b t) = respond 200 (Message ''Blog post updated successfully'')"
proof -
  have nc: "\<not> (\<exists>x\<in>set (rows t). bp_slug x = bb_slug b \<and> bp_id x \<noteq> k)"
  proof
    assume "\<exists>x\<in>set (rows t). bp_slug x = bb_slug b \<and> bp_id x \<noteq> k"
    then obtain x where x: "x \<in> set (rows t)" "bp_slug x = bp_slug p" "bp_id x \<noteq> k"
      using own by auto
    from slugs p x(1,2) have "x = p" by (meson distinct_map inj_on_def)
    with x(3) id show False by simp
  qed
  from content have nb: "\<not> (truthy (bb_content b) \<and> compute_readTime (bb_content b) = None)"
    by (auto simp: compute_readTime_def)
  from p id have kin: "k \<in> bp_id ` set (rows t)" by auto
  from k show ?thesis
  proof (cases rule: put_blog_cases [where now = now and b = b and t = t])
    case conflict
    with nc show ?thesis by simp
  next
    case type_error
    with nb show ?thesis by simp
  next
    case (updated rt)
    with kin show ?thesis by simp
  qed
qed

text \<open>
  C5: creating a post with a slug that some post already has is answered with 400 and
  writes nothing; updating a post to a slug that a different post has is answered with 400
  and changes nothing; updating a post to its own slug is answered with 200 (the content, if
  given, being text); and both operations keep the slugs of the table pairwise different
  (together with the ids, which stay unique and below the next id).
\<close>

theorem blog_slug_unique:
  "((\<exists>x\<in>set (rows t). bp_slug x = bb_slug b) \<longrightarrow>
       status (fst (post_blog now b user t)) = 400 \<and> snd (post_blog now b user t) = t)
   \<and> (parseInt_str idParam = Some k \<and> truthy (bb_slug b)
        \<and> (\<exists>x\<in>set (rows t). bp_slug x = bb_slug b \<and> bp_id x \<noteq> k) \<longrightarrow>
       put_blog now idParam b t
         = (respond 400 (Error ''El slug ya existe. Elige otro slug unico.''), t))
   \<and> (\<forall>p\<in>set (rows t). parseInt_str idParam = Some k \<and> bp_id p = k \<and> bb_slug b = bp_slug p
        \<and> distinct (map bp_slug (rows t))
        \<and> (truthy (bb_content b) \<longrightarrow> (\<exists>c. bb_content b = JStr c)) \<longrightarrow>
       fst (put_blog now idParam b t) = respond 200 (Message ''Blog post updated successfully''))
   \<and> (posts_wf t \<longrightarrow> posts_wf (snd (post_blog now b user t)) \<and> posts_wf (snd (put_blog now idParam b t)))"
proof (intro conjI ballI impI)
  assume "\<exists>x\<in>set (rows t). bp_slug x = bb_slug b"
  then have "status (fst (post_blog now b user t)) = 400 \<and> snd (post_blog now b user t) = t"
    by (rule post_blog_slug_taken)
  then show "status (fst (post_blog now b user t)) = 400" and "snd (post_blog now b user t) = t"
    by simp_all
next
  assume "parseInt_str idParam = Some k \<and> truthy (bb_slug b)
        \<and> (\<exists>x\<in>set (rows t). bp_slug x = bb_slug b \<and> bp_id x \<noteq> k)"
  then have k: "parseInt_str idParam = Some k" and c: "truthy (bb_slug b)"
      "\<exists>x\<in>set (rows t). bp_slug x = bb_slug b \<and> bp_id x \<noteq> k" by simp_all
  from k show "put_blog now idParam b t
         = (respond 400 (Error ''El slug ya existe. Elige otro slug unico.''), t)"
  proof (cases rule: put_blog_cases [where now = now and b = b and t = t])
    case conflict
    then show ?thesis by simp
  next
    case type_error
    with c show ?thesis by simp
  next
    case (updated rt)
    with c show ?thesis by simp
  qed
next
  fix p
  assume "p \<in> set (rows t)"
    and "parseInt_str idParam = Some k \<and> bp_id p = k \<and> bb_slug b = bp_slug p
        \<and> distinct (map bp_slug (rows t))
        \<and> (truthy (bb_content b) \<longrightarrow> (\<exists>c. bb_content b = JStr c))"
  then show "fst (put_blog now idParam b t) = respond 200 (Message ''Blog post updated successfully'')"
    using put_blog_own_slug [of idParam k p t b now] by blast
next
  assume "posts_wf t"
  then show "posts_wf (snd (post_blog now b user t))" and "posts_wf (snd (put_blog now idParam b t))"
    by (rule post_blog_wf, rule put_blog_wf)
qed

theorem blog_slug_unique_witness:
  "posts_wf example_posts
   \<and> status (fst (post_blog 50 (example_new_post ''alpha'' ''Hola'') example_user example_posts)) = 400
   \<and> snd (post_blog 50 (example_new_post ''alpha'' ''Hola'') example_user example_posts) = example_posts
   \<and> put_blog 50 ''3'' (example_slug_update ''alpha'') example_posts
       = (respond 400 (Error ''El slug ya existe. Elige otro slug unico.''), example_posts)
   \<and> fst (put_blog 50 ''1'' (example_slug_update ''alpha'') example_posts)
       = respond 200 (Message ''Blog post updated successfully'')
   \<and> posts_wf (snd (post_blog 50 (example_new_post ''omega'' ''Hola'') example_user example_posts))
   \<and> posts_wf (snd (put_blog 50 ''1'' (example_slug_update ''omega'') example_posts))"
proof -
  have k: "parseInt_str ''3'' = Some 3" "parseInt_str ''1'' = Some 1" by code_simp+
  have wf: "posts_wf example_posts"
    by (simp add: posts_wf_def example_posts_def example_post_def)
  then have d: "distinct (map bp_slug (rows example_posts))" by (simp add: posts_wf_def)
  let ?p = "example_post 1 ''alpha'' ''salud'' True 10"
  have p: "?p \<in> set (rows example_posts)" by (simp add: example_posts_def)
  have taken: "\<exists>x\<in>set (rows example_posts). bp_slug x = bb_slug (example_new_post ''alpha'' ''Hola'')"
    using p by (intro bexI [of _ ?p]) (simp_all add: example_post_def example_new_post_def)
  have other: "parseInt_str ''3'' = Some 3 \<and> truthy (bb_slug (example_slug_update ''alpha''))
        \<and> (\<exists>x\<in>set (rows example_posts). bp_slug x = bb_slug (example_slug_update ''alpha'') \<and> bp_id x \<noteq> 3)"
    using p k by (intro conjI bexI [of _ ?p]) (simp_all add: example_post_def example_slug_update_def)
  have own: "parseInt_str ''1'' = Some 1 \<and> bp_id ?p = 1 \<and> bb_slug (example_slug_update ''alpha'') = bp_slug ?p
        \<and> distinct (map bp_slug (rows example_posts))
        \<and> (truthy (bb_content (example_slug_update ''alpha''))
             \<longrightarrow> (\<exists>c. bb_content (example_slug_update ''alpha'') = JStr c))"
    using k d by (simp add: example_post_def example_slug_update_def)
  note a = blog_slug_unique [where t = example_posts and now = 50 and user = example_user
      and b = "example_new_post ''alpha'' ''Hola''", THEN conjunct1, THEN mp, OF taken]
  note b = blog_slug_unique [where t = example_posts and now = 50 and idParam = "''3''" and k = 3
      and b = "example_slug_update ''alpha''", THEN conjunct2, THEN conjunct1, THEN mp, OF other]
  note c = blog_slug_unique [where t = example_posts and now = 50 and idParam = "''1''" and k = 1
      and b = "example_slug_update ''alpha''", THEN conjunct2, THEN conjunct2, THEN conjunct1,
      THEN bspec, OF p, THEN mp, OF own]
  note e = blog_slug_unique [where t = example_posts and now = 50 and user = example_user
      and b = "example_new_post ''omega'' ''Hola''", THEN conjunct2, THEN conjunct2, THEN conjunct2,
      THEN mp, OF wf, THEN conjunct1]
  note f = blog_slug_unique [where t = example_posts and now = 50 and idParam = "''1''"
      and b = "example_slug_update ''omega''", THEN conjunct2, THEN conjunct2, THEN conjunct2,
      THEN mp, OF wf, THEN conjunct2]
  from wf a b c e f show ?thesis by (intro conjI) simp_all
qed

lemma apply_update_as:
  assumes "\<not> (truthy (bb_content b) \<and> compute_readTime (bb_content b) = None)"
  shows "updated_as now b p
           (apply_update now b (if truthy (bb_content b) then compute_readTime (bb_content b) else None) p)"
proof -
  have rt: "bp_readTime (apply_update now b
              (if truthy (bb_content b) then compute_readTime (bb_content b) else None) p)
          = (case bb_content b of
                            JStr c \<Rightarrow> if c = [] then bp_readTime p
                                      else max 1 (Math_ceil (of_int (wordCount c) / 200))
                          | _ \<Rightarrow> bp_readTime p)"
    using assms by (cases "bb_content b") (auto simp: apply_update_def compute_readTime_def)
  show ?thesis
    unfolding updated_as_def
    by (intro conjI rt) (simp_all add: apply_update_def)
qed

lemma status_respond [simp]: "status (respond n body) = n"
  by (simp add: respond_def)

lemma compute_readTime_None: "(compute_readTime v = None) = (\<forall>c. v \<noteq> JStr c)"
  by (cases v) (simp_all add: compute_readTime_def)

text \<open>
  C4 (as the code has it): an update of a post with a numeric id leaves every row with
  another id as it was; when it is answered with 200, the row with the id changes exactly as
  \<open>updated_as\<close> says: the fields the body supplies with a usable value, the read time
  derived from a supplied content, and \<open>updatedAt\<close>. When no post has the id no row changes,
  and the answer is 404 unless the supplied slug is in use (400) or the supplied content is
  not text (500).
\<close>

theorem put_blog_frame:
  assumes "parseInt_str idParam = Some k"
  shows "case put_blog now idParam b t of
           (res, t') \<Rightarrow>
             next_id t' = next_id t \<and> length (rows t') = length (rows t)
           \<and> (\<forall>i<length (rows t).
                 (bp_id (rows t ! i) \<noteq> k \<or> status res \<noteq> 200 \<longrightarrow> rows t' ! i = rows t ! i)
               \<and> (bp_id (rows t ! i) = k \<and> status res = 200
                     \<longrightarrow> updated_as now b (rows t ! i) (rows t' ! i)))
           \<and> (k \<notin> bp_id ` set (rows t) \<longrightarrow>
                 t' = t
               \<and> res = (if truthy (bb_slug b) \<and> (\<exists>x\<in>set (rows t). bp_slug x = bb_slug b)
                        then respond 400 (Error ''El slug ya existe. Elige otro slug unico.'')
                        else if truthy (bb_content b) \<and> (\<forall>c. bb_content b \<noteq> JStr c)
                        then respond 500 (Error ''Internal server error'')
                        else respond 404 (Error ''Blog post not found'')))"
  using assms
proof (cases rule: put_blog_cases [where now = now and b = b and t = t])
  case conflict
  then have "truthy (bb_slug b) \<and> (\<exists>x\<in>set (rows t). bp_slug x = bb_slug b)" by blast
  then show ?thesis unfolding conflict(3) prod.case by simp
next
  case type_error
  have "k \<notin> bp_id ` set (rows t) \<Longrightarrow>
          \<not> (truthy (bb_slug b) \<and> (\<exists>x\<in>set (rows t). bp_slug x = bb_slug b))"
    using type_error(1) by blast
  moreover have "\<forall>c. bb_content b \<noteq> JStr c"
    using type_error(3) by (simp add: compute_readTime_None)
  ultimately show ?thesis unfolding type_error(4) prod.case using type_error(2) by auto
next
  case (updated rt)
  let ?f = "\<lambda>p. if bp_id p = k then apply_update now b rt p else p"
  have nth: "map ?f (rows t) ! i = ?f (rows t ! i)" if "i < length (rows t)" for i
    using that by (rule nth_map)
  have hit: "updated_as now b p (apply_update now b rt p)" for p
    unfolding updated(3) using updated(2) by (rule apply_update_as)
  have frame: "\<forall>i<length (rows t).
                 (bp_id (rows t ! i) \<noteq> k \<or> k \<notin> bp_id ` set (rows t)
                     \<longrightarrow> map ?f (rows t) ! i = rows t ! i)
               \<and> (bp_id (rows t ! i) = k \<longrightarrow> updated_as now b (rows t ! i) (map ?f (rows t) ! i))"
  proof (intro allI impI conjI)
    fix i assume i: "i < length (rows t)"
    then have mem: "bp_id (rows t ! i) \<in> bp_id ` set (rows t)" by simp
    { assume "bp_id (rows t ! i) \<noteq> k \<or> k \<notin> bp_id ` set (rows t)"
      with mem have "bp_id (rows t ! i) \<noteq> k" by auto
      then show "map ?f (rows t) ! i = rows t ! i" by (simp add: nth [OF i]) }
    { assume "bp_id (rows t ! i) = k"
      then show "updated_as now b (rows t ! i) (map ?f (rows t) ! i)" by (simp add: nth [OF i] hit) }
  qed
  have missing: "t\<lparr>rows := map ?f (rows t)\<rparr> = t" if "k \<notin> bp_id ` set (rows t)"
    using that by (simp add: update_missing)
  have nconf: "\<not> (truthy (bb_slug b) \<and> (\<exists>x\<in>set (rows t). bp_slug x = bb_slug b))"
    if "k \<notin> bp_id ` set (rows t)"
    using that updated(1) by blast
  have nbad: "\<not> (truthy (bb_content b) \<and> (\<forall>c. bb_content b \<noteq> JStr c))"
    using updated(2) by (simp add: compute_readTime_None)
  show ?thesis
  proof (cases "k \<in> bp_id ` set (rows t)")
    case True
    with frame show ?thesis unfolding updated(4) prod.case by simp
  next
    case False
    have r: "(if truthy (bb_slug b) \<and> (\<exists>x\<in>set (rows t). bp_slug x = bb_slug b)
              then respond 400 (Error ''El slug ya existe. Elige otro slug unico.'')
              else if truthy (bb_content b) \<and> (\<forall>c. bb_content b \<noteq> JStr c)
              then respond 500 (Error ''Internal server error'')
              else respond 404 (Error ''Blog post not found''))
           = respond 404 (Error ''Blog post not found'')"
      unfolding if_not_P [OF nconf [OF False]] if_not_P [OF nbad] by (rule refl)
    from frame missing [OF False] False show ?thesis unfolding updated(4) prod.case r by simp
  qed
qed

text \<open>
  A body that supplies the content only changes the read time of a post created through
  the interface from 2 to 1; and an update of the missing id 99 with a slug in use is
  answered with 400, not with 404.
\<close>

theorem put_blog_frame_counterexample:
  "map bp_readTime (rows example_long_table) = [2]
   \<and> fst (put_blog 20 ''1'' example_content_update example_long_table)
       = respond 200 (Message ''Blog post updated successfully'')
   \<and> map bp_readTime (rows (snd (put_blog 20 ''1'' example_content_update example_long_table))) = [1]
   \<and> 99 \<notin> bp_id ` set (rows example_posts)
   \<and> put_blog 20 ''99'' (example_slug_update ''alpha'') example_posts
       = (respond 400 (Error ''El slug ya existe. Elige otro slug unico.''), example_posts)"
proof -
  have 1: "map bp_readTime (rows example_long_table) = [2]" by code_simp
  have 2: "fst (put_blog 20 ''1'' example_content_update example_long_table)
       = respond 200 (Message ''Blog post updated successfully'')" by code_simp
  have 3: "map bp_readTime (rows (snd (put_blog 20 ''1'' example_content_update example_long_table))) = [1]"
    by code_simp
  have 4: "99 \<notin> bp_id ` set (rows example_posts)"
    by (simp add: example_posts_def example_post_def)
  have 5: "put_blog 20 ''99'' (example_slug_update ''alpha'') example_posts
       = (respond 400 (Error ''El slug ya existe. Elige otro slug unico.''), example_posts)"
    by code_simp
  from 1 2 3 4 5 show ?thesis by (intro conjI)
qed

theorem put_blog_frame_witness:
  "parseInt_str ''1'' = Some 1 \<and> parseInt_str ''99'' = Some 99
   \<and> put_blog 50 ''1'' example_title_update example_posts
       = (respond 200 (Message ''Blog post updated successfully''),
          \<lparr>rows = [(example_post 1 ''alpha'' ''salud'' True 10)
                     \<lparr>bp_title := JStr ''Nuevo titulo'', bp_published := False, bp_updatedAt := 50\<rparr>,
                   example_post 2 ''draft'' ''salud'' False 20,
                   example_post 3 ''gamma'' ''salud'' True 30,
                   example_post 4 ''delta'' ''hogar'' True 40],
           next_id = 5\<rparr>)
   \<and> updated_as 50 example_title_update (rows example_posts ! 0)
        (rows (snd (put_blog 50 ''1'' example_title_update example_posts)) ! 0)
   \<and> rows (snd (put_blog 50 ''1'' example_title_update example_posts)) ! 1 = rows example_posts ! 1
   \<and> put_blog 50 ''99'' example_title_update example_posts
       = (respond 404 (Error ''Blog post not found''), example_posts)"
proof -
  have k: "parseInt_str ''1'' = Some 1" "parseInt_str ''99'' = Some 99" by code_simp+
  have ev: "put_blog 50 ''1'' example_title_update example_posts
       = (respond 200 (Message ''Blog post updated successfully''),
          \<lparr>rows = [(example_post 1 ''alpha'' ''salud'' True 10)
                     \<lparr>bp_title := JStr ''Nuevo titulo'', bp_published := False, bp_updatedAt := 50\<rparr>,
                   example_post 2 ''draft'' ''salud'' False 20,
                   example_post 3 ''gamma'' ''salud'' True 30,
                   example_post 4 ''delta'' ''hogar'' True 40],
           next_id = 5\<rparr>)"
    by (simp add: put_blog_def k(1) Let_def example_posts_def example_post_def example_title_update_def
        apply_update_def)
  obtain res t' where run: "put_blog 50 ''1'' example_title_update example_posts = (res, t')"
    by (cases "put_blog 50 ''1'' example_title_update example_posts")
  with ev have res: "status res = 200" by simp
  have len: "0 < length (rows example_posts)" "1 < length (rows example_posts)"
    and ids: "bp_id (rows example_posts ! 0) = 1" "bp_id (rows example_posts ! 1) \<noteq> 1"
    by (simp_all add: example_posts_def example_post_def)
  from put_blog_frame [OF k(1), where now = 50 and b = example_title_update and t = example_posts]
  have fr: "\<forall>i<length (rows example_posts).
                 (bp_id (rows example_posts ! i) \<noteq> 1 \<or> status res \<noteq> 200
                     \<longrightarrow> rows t' ! i = rows example_posts ! i)
               \<and> (bp_id (rows example_posts ! i) = 1 \<and> status res = 200
                     \<longrightarrow> updated_as 50 example_title_update (rows example_posts ! i) (rows t' ! i))"
    unfolding run prod.case by (elim conjE)
  from fr len(1) ids(1) res
  have a: "updated_as 50 example_title_update (rows example_posts ! 0) (rows t' ! 0)" by blast
  from fr len(2) ids(2)
  have b: "rows t' ! 1 = rows example_posts ! 1" by blast
  obtain res9 t9 where run9: "put_blog 50 ''99'' example_title_update example_posts = (res9, t9)"
    by (cases "put_blog 50 ''99'' example_title_update example_posts")
  have out: "99 \<notin> bp_id ` set (rows example_posts)"
    by (simp add: example_posts_def example_post_def)
  from put_blog_frame [OF k(2), where now = 50 and b = example_title_update and t = example_posts] out
  have "t9 = example_posts \<and> res9 =
           (if truthy (bb_slug example_title_update)
                 \<and> (\<exists>x\<in>set (rows example_posts). bp_slug x = bb_slug example_title_update)
            then respond 400 (Error ''El slug ya existe. Elige otro slug unico.'')
            else if truthy (bb_content example_title_update)
                      \<and> (\<forall>c. bb_content example_title_update \<noteq> JStr c)
            then respond 500 (Error ''Internal server error'')
            else respond 404 (Error ''Blog post not found''))"
    unfolding run9 prod.case by (elim conjE) (erule (1) mp)
  then have c: "t9 = example_posts \<and> res9 = respond 404 (Error ''Blog post not found'')"
    by (simp add: example_title_update_def)
  from k ev a b c show ?thesis by (simp add: run run9)
qed

end
